theory Spec2Isabelle
  imports Complex_Main
begin

section \<open>Python values used by the detection pipeline\<close>

text \<open>
  The development embeds \<^verbatim>\<open>src/vision/yolo_prediction_fast.py\<close>: the two worker threads
  (\<^verbatim>\<open>FrameCapture\<close>, \<^verbatim>\<open>YOLOProcessor\<close>), the \<^verbatim>\<open>DetectionSmoother\<close>, the
  \<^verbatim>\<open>PerformanceAdaptor\<close>, \<^verbatim>\<open>make_overlay\<close> and the body of the loop of \<^verbatim>\<open>main\<close>.

  Conventions. Python \<^verbatim>\<open>int\<close> is \<^typ>\<open>int\<close>. A Python \<^verbatim>\<open>float\<close> that the program
  computes with is a \<^typ>\<open>real\<close>: the arithmetic is exact, the rounding of binary64 is
  not modelled (so \<^verbatim>\<open>1 - 0.8\<close> is exactly one fifth and \<^verbatim>\<open>12 * 0.8\<close> exactly 9.6).
  A float that comes from outside (the detector's tensors, the text of a label) may also be
  an infinity or a NaN, and is a \<open>pyfloat\<close>. A \<^verbatim>\<open>str\<close> is a \<^typ>\<open>string\<close>, one
  \<^typ>\<open>char\<close> for each code point below 256. Exceptions are values of type \<open>exn\<close>;
  a function that may raise returns \<open>exn + 'a\<close>. Every read of the clock
  (\<^verbatim>\<open>time.time()\<close>) is an argument \<open>now\<close>. What the program prints is returned as a
  list of lines.
\<close>

datatype exn =
  Empty | Full | ValueError | OverflowError | IndexError | KeyError | ZeroDivisionError
  | DeviceError

datatype pyfloat = Finite real | PosInf | NegInf | NaN

text \<open>\<^verbatim>\<open>a < b\<close> and \<^verbatim>\<open>a >= b\<close> on floats; every comparison with a NaN is false.\<close>

fun float_lt :: "pyfloat \<Rightarrow> pyfloat \<Rightarrow> bool" where
  "float_lt NaN b = False"
| "float_lt a NaN = False"
| "float_lt (Finite x) (Finite y) = (x < y)"
| "float_lt (Finite x) PosInf = True"
| "float_lt (Finite x) NegInf = False"
| "float_lt PosInf b = False"
| "float_lt NegInf NegInf = False"
| "float_lt NegInf b = True"

fun float_ge :: "pyfloat \<Rightarrow> pyfloat \<Rightarrow> bool" where
  "float_ge NaN b = False"
| "float_ge a NaN = False"
| "float_ge a b = (\<not> float_lt a b)"

text \<open>\<^verbatim>\<open>int(x)\<close> on a float truncates toward zero; it raises on an infinity and on a NaN.\<close>

definition py_trunc :: "real \<Rightarrow> int" where
  "py_trunc r = (if 0 \<le> r then \<lfloor>r\<rfloor> else \<lceil>r\<rceil>)"

fun py_int :: "pyfloat \<Rightarrow> exn + int" where
  "py_int (Finite r) = Inr (py_trunc r)"
| "py_int PosInf = Inl OverflowError"
| "py_int NegInf = Inl OverflowError"
| "py_int NaN = Inl ValueError"

text \<open>\<^verbatim>\<open>collections.deque(maxlen=n).append(x)\<close>: the oldest entries leave on the left.\<close>

definition deque_append :: "nat \<Rightarrow> 'a \<Rightarrow> 'a list \<Rightarrow> 'a list" where
  "deque_append n x xs = (let ys = xs @ [x] in drop (length ys - n) ys)"

subsection \<open>Text: decimal output, \<^verbatim>\<open>str.split()\<close>, \<^verbatim>\<open>float(str)\<close>\<close>

definition digit_char :: "nat \<Rightarrow> char" where
  "digit_char n = ''0123456789'' ! n"

function str_nat :: "nat \<Rightarrow> string" where
  "str_nat n = (if n < 10 then [digit_char n] else str_nat (n div 10) @ [digit_char (n mod 10)])"
  by pat_completeness auto
termination
  by (relation "measure id") auto

definition str_int :: "int \<Rightarrow> string" where
  "str_int i = (if i < 0 then CHR ''-'' # str_nat (nat (- i)) else str_nat (nat i))"

text \<open>Rounding to the nearest integer, a tie to the even one, as float formatting does.\<close>

definition round_half_even :: "real \<Rightarrow> int" where
  "round_half_even x =
     (let f = \<lfloor>x\<rfloor>; d = x - of_int f
      in if d < 1 / 2 then f else if 1 / 2 < d then f + 1 else if even f then f else f + 1)"

definition zero_pad :: "nat \<Rightarrow> string \<Rightarrow> string" where
  "zero_pad k s = replicate (k - length s) CHR ''0'' @ s"

text \<open>The format specification \<^verbatim>\<open>:.kf\<close> with \<open>k > 0\<close>, as in \<^verbatim>\<open>f"{conf:.2f}"\<close>.\<close>

fun format_f :: "nat \<Rightarrow> pyfloat \<Rightarrow> string" where
  "format_f k NaN = ''nan''"
| "format_f k PosInf = ''inf''"
| "format_f k NegInf = ''-inf''"
| "format_f k (Finite v) =
     (let n = nat (round_half_even (\<bar>v\<bar> * 10 ^ k))
      in (if v < 0 then ''-'' else '''') @ str_nat (n div 10 ^ k) @ ''.''
           @ zero_pad k (str_nat (n mod 10 ^ k)))"

text \<open>
  \<^verbatim>\<open>str.isspace\<close> on the code points below 256: tab, line feed, vertical tab, form feed,
  carriage return, the four separators 28 to 31, space, next line (133) and no-break
  space (160).
\<close>

definition isspace :: "char \<Rightarrow> bool" where
  "isspace c = ((of_char c :: nat) \<in> {9, 10, 11, 12, 13, 28, 29, 30, 31, 32, 133, 160})"

text \<open>\<^verbatim>\<open>s.split()\<close>: the maximal runs of non-space characters; \<open>cur\<close> is the run being read.\<close>

fun split_from :: "string \<Rightarrow> string \<Rightarrow> string list" where
  "split_from cur [] = (if cur = [] then [] else [cur])"
| "split_from cur (c # cs) =
     (if isspace c then (if cur = [] then split_from [] cs else cur # split_from [] cs)
      else split_from (cur @ [c]) cs)"

definition str_split :: "string \<Rightarrow> string list" where
  "str_split s = split_from [] s"

definition strip :: "string \<Rightarrow> string" where
  "strip s = rev (dropWhile isspace (rev (dropWhile isspace s)))"

definition is_digit :: "char \<Rightarrow> bool" where
  "is_digit c = (48 \<le> (of_char c :: nat) \<and> (of_char c :: nat) \<le> 57)"

definition digit_val :: "char \<Rightarrow> nat" where
  "digit_val c = of_char c - 48"

definition lower :: "char \<Rightarrow> char" where
  "lower c = (if 65 \<le> (of_char c :: nat) \<and> (of_char c :: nat) \<le> 90
              then char_of ((of_char c :: nat) + 32) else c)"

text \<open>
  The grammar of \<^verbatim>\<open>float(str)\<close>:
  \<^verbatim>\<open>digitpart ::= digit (["_"] digit)*\<close>,
  \<^verbatim>\<open>number ::= [digitpart] "." digitpart | digitpart ["."]\<close>,
  \<^verbatim>\<open>exponent ::= ("e" | "E") [sign] digitpart\<close>,
  \<^verbatim>\<open>floatvalue ::= [sign] (number [exponent] | "inf" | "infinity" | "nan")\<close>,
  the words in any case, white space around the value ignored. Each parser returns the
  value read, the number of digits where it matters, and the rest of the text. The value of
  a number is its decimal value, not yet rounded to binary64; \<open>None\<close> is \<open>ValueError\<close>,
  the only exception that \<^verbatim>\<open>float\<close> raises on a string.
\<close>

fun digits_rest :: "nat \<Rightarrow> nat \<Rightarrow> string \<Rightarrow> nat \<times> nat \<times> string" where
  "digits_rest v n [] = (v, n, [])"
| "digits_rest v n [c] = (if is_digit c then (10 * v + digit_val c, n + 1, []) else (v, n, [c]))"
| "digits_rest v n (c # d # ds) =
     (if is_digit c then digits_rest (10 * v + digit_val c) (n + 1) (d # ds)
      else if c = CHR ''_'' \<and> is_digit d then digits_rest (10 * v + digit_val d) (n + 1) ds
      else (v, n, c # d # ds))"

fun digitpart :: "string \<Rightarrow> (nat \<times> nat \<times> string) option" where
  "digitpart [] = None"
| "digitpart (c # cs) = (if is_digit c then Some (digits_rest (digit_val c) 1 cs) else None)"

fun fraction :: "string \<Rightarrow> (real \<times> string) option" where
  "fraction s = (case digitpart s of
       None \<Rightarrow> None
     | Some (f, k, r) \<Rightarrow> Some (real f / 10 ^ k, r))"

fun number :: "string \<Rightarrow> (real \<times> string) option" where
  "number s = (case digitpart s of
       Some (i, k, r) \<Rightarrow>
         (case r of
            [] \<Rightarrow> Some (real i, [])
          | c # r' \<Rightarrow>
              if c = CHR ''.'' then
                (case fraction r' of None \<Rightarrow> Some (real i, r') | Some (f, r'') \<Rightarrow> Some (real i + f, r''))
              else Some (real i, r))
     | None \<Rightarrow>
         (case s of
            [] \<Rightarrow> None
          | c # r' \<Rightarrow> if c = CHR ''.'' then fraction r' else None))"

fun sign :: "string \<Rightarrow> int \<times> string" where
  "sign [] = (1, [])"
| "sign (c # cs) = (if c = CHR ''-'' then (- 1, cs) else if c = CHR ''+'' then (1, cs) else (1, c # cs))"

fun exponent :: "string \<Rightarrow> int option" where
  "exponent [] = None"
| "exponent (c # cs) =
     (if c = CHR ''e'' \<or> c = CHR ''E'' then
        (case sign cs of (sg, r) \<Rightarrow>
           (case digitpart r of
              Some (e, k, []) \<Rightarrow> Some (sg * int e)
            | _ \<Rightarrow> None))
      else None)"

definition scale10 :: "real \<Rightarrow> int \<Rightarrow> real" where
  "scale10 m e = (if 0 \<le> e then m * 10 ^ nat e else m / 10 ^ nat (- e))"

definition py_float :: "string \<Rightarrow> pyfloat option" where
  "py_float s =
     (case sign (strip s) of (sg, r) \<Rightarrow>
        if map lower r = ''inf'' \<or> map lower r = ''infinity'' then
          Some (if sg < 0 then NegInf else PosInf)
        else if map lower r = ''nan'' then Some NaN
        else
          (case number r of
             None \<Rightarrow> None
           | Some (m, []) \<Rightarrow> Some (Finite (of_int sg * m))
           | Some (m, c # cs) \<Rightarrow>
               (case exponent (c # cs) of
                  None \<Rightarrow> None
                | Some e \<Rightarrow> Some (Finite (of_int sg * scale10 m e)))))"

section \<open>Bounded channels\<close>

text \<open>
  \<^verbatim>\<open>queue.Queue(maxsize=n)\<close>, first in first out. \<open>full\<close>, \<open>put_nowait\<close>
  (\<^verbatim>\<open>put(item, block=False)\<close>) and \<open>get_nowait\<close> are the library's operations, each
  atomic under the queue's lock. \<^verbatim>\<open>get(timeout=0.1)\<close> on a queue that stays empty for the
  time allowed raises \<open>Empty\<close> like \<^verbatim>\<open>get(block=False)\<close>; the wait itself is not
  modelled.
\<close>

record 'a queue =
  maxsize :: int
  items :: "'a list"

definition qsize :: "'a queue \<Rightarrow> int" where
  "qsize q = int (length (items q))"

definition full :: "'a queue \<Rightarrow> bool" where
  "full q = (0 < maxsize q \<and> maxsize q \<le> qsize q)"

definition put_nowait :: "'a \<Rightarrow> 'a queue \<Rightarrow> exn + 'a queue" where
  "put_nowait x q =
     (if 0 < maxsize q \<and> maxsize q \<le> qsize q then Inl Full
      else Inr (q\<lparr>items := items q @ [x]\<rparr>))"

definition get_nowait :: "'a queue \<Rightarrow> exn + 'a \<times> 'a queue" where
  "get_nowait q = (case items q of [] \<Rightarrow> Inl Empty | x # xs \<Rightarrow> Inr (x, q\<lparr>items := xs\<rparr>))"

definition BUFFER_SIZE :: int where
  "BUFFER_SIZE = 3"

definition new_queue :: "int \<Rightarrow> 'a queue" where
  "new_queue n = \<lparr>maxsize = n, items = []\<rparr>"

definition try_bind :: "exn + 'a \<Rightarrow> ('a \<Rightarrow> exn + 'b) \<Rightarrow> exn + 'b" where
  "try_bind m f = (case m of Inl e \<Rightarrow> Inl e | Inr x \<Rightarrow> f x)"

text \<open>A printed line; \<open>PrintedExn s e\<close> is the text \<open>s\<close> followed by \<^verbatim>\<open>str(e)\<close>.\<close>

datatype printed = Printed string | PrintedExn string exn

datatype flow = Continue | Break

section \<open>The capture thread\<close>

text \<open>
  One pass through the loop of \<^verbatim>\<open>FrameCapture.run\<close>. \<open>captured\<close> is what lines 47 to 49
  give: the converted frame, or the exception the camera raised. \<open>stop_set\<close> is
  \<^verbatim>\<open>stop_event.is_set()\<close> as read in the handler. The result is the frame queue, the
  lines printed, and whether the loop goes on.
\<close>

definition capture_publish :: "'f \<Rightarrow> 'f queue \<Rightarrow> exn + 'f queue" where
  "capture_publish rgb q = (if \<not> full q then put_nowait rgb q else Inr q)"

definition capture_body :: "bool \<Rightarrow> exn + 'f \<Rightarrow> 'f queue \<Rightarrow> 'f queue \<times> printed list \<times> flow" where
  "capture_body stop_set captured q =
     (case try_bind captured (\<lambda>rgb. capture_publish rgb q) of
        Inr q' \<Rightarrow> (q', [], Continue)
      | Inl e \<Rightarrow>
          if e = Full then (q, [], Continue)
          else (q, if \<not> stop_set then [PrintedExn ''Frame capture error: '' e] else [], Break))"

section \<open>The inference thread\<close>

type_synonym detection = "int \<times> int \<times> int \<times> int \<times> string"

text \<open>What the detector returns: for each result the class names and the boxes.\<close>

record box =
  xyxy :: "pyfloat \<times> pyfloat \<times> pyfloat \<times> pyfloat"
  conf :: pyfloat
  cls :: pyfloat

record result =
  names :: "int \<rightharpoonup> string"
  boxes :: "box list"

record processor =
  img_size :: int
  conf_thres :: pyfloat
  frame_skip :: int
  frame_count :: int

definition lookup :: "('k \<rightharpoonup> 'v) \<Rightarrow> 'k \<Rightarrow> exn + 'v" where
  "lookup m k = (case m k of None \<Rightarrow> Inl KeyError | Some v \<Rightarrow> Inr v)"

text \<open>Lines 96 to 102 for one box: the tuple appended, or nothing below the threshold.\<close>

definition box_detection :: "(int \<rightharpoonup> string) \<Rightarrow> pyfloat \<Rightarrow> box \<Rightarrow> exn + detection option" where
  "box_detection nm thr b =
     (case xyxy b of (x1, y1, x2, y2) \<Rightarrow>
        try_bind (py_int (cls b)) (\<lambda>c.
          if float_ge (conf b) thr then
            try_bind (py_int x1) (\<lambda>ix1.
            try_bind (py_int y1) (\<lambda>iy1.
            try_bind (py_int x2) (\<lambda>ix2.
            try_bind (py_int y2) (\<lambda>iy2.
            try_bind (lookup nm c) (\<lambda>name.
              Inr (Some (ix1, iy1, ix2, iy2, name @ '' '' @ format_f 2 (conf b))))))))
          else Inr None))"

fun collect_dets :: "(int \<rightharpoonup> string) \<Rightarrow> pyfloat \<Rightarrow> box list \<Rightarrow> detection list \<Rightarrow> exn + detection list" where
  "collect_dets nm thr [] dets = Inr dets"
| "collect_dets nm thr (b # bs) dets =
     (case box_detection nm thr b of
        Inl e \<Rightarrow> Inl e
      | Inr None \<Rightarrow> collect_dets nm thr bs dets
      | Inr (Some d) \<Rightarrow> collect_dets nm thr bs (dets @ [d]))"

definition extract_dets :: "pyfloat \<Rightarrow> result list \<Rightarrow> exn + detection list" where
  "extract_dets thr results =
     (case results of [] \<Rightarrow> Inr [] | r # rest \<Rightarrow> collect_dets (names r) thr (boxes r) [])"

definition result_publish :: "'r \<Rightarrow> 'r queue \<Rightarrow> exn + 'r queue" where
  "result_publish item q = (if \<not> full q then put_nowait item q else Inr q)"

text \<open>The three handlers of \<^verbatim>\<open>YOLOProcessor.run\<close>, in the order of the source.\<close>

definition processor_handler :: "bool \<Rightarrow> exn \<Rightarrow> printed list \<times> flow" where
  "processor_handler stop_set e =
     (if e = Empty then ([], Continue)
      else if e = Full then ([], Continue)
      else (if \<not> stop_set then [PrintedExn ''YOLO processing error: '' e] else [], Break))"

text \<open>
  One pass through the loop of \<^verbatim>\<open>YOLOProcessor.run\<close>; \<open>model\<close> is the detector. The
  decimation reads the field \<open>frame_skip\<close> of the thread object.
\<close>

definition processor_body ::
  "bool \<Rightarrow> ('f \<Rightarrow> exn + result list) \<Rightarrow> processor \<Rightarrow> 'f queue \<Rightarrow> ('f \<times> detection list) queue
     \<Rightarrow> processor \<times> 'f queue \<times> ('f \<times> detection list) queue \<times> printed list \<times> flow" where
  "processor_body stop_set model p fq rq =
     (case get_nowait fq of
        Inl e \<Rightarrow> (case processor_handler stop_set e of (out, fl) \<Rightarrow> (p, fq, rq, out, fl))
      | Inr (rgb, fq') \<Rightarrow>
          (let p' = p\<lparr>frame_count := frame_count p + 1\<rparr> in
           if frame_skip p' = 0 then
             (case processor_handler stop_set ZeroDivisionError of (out, fl) \<Rightarrow> (p', fq', rq, out, fl))
           else if frame_count p' mod frame_skip p' \<noteq> 0 then (p', fq', rq, [], Continue)
           else
             (case try_bind (model rgb) (\<lambda>results.
                   try_bind (extract_dets (conf_thres p') results) (\<lambda>dets.
                     result_publish (rgb, dets) rq)) of
                Inr rq' \<Rightarrow> (p', fq', rq', [], Continue)
              | Inl e \<Rightarrow> (case processor_handler stop_set e of (out, fl) \<Rightarrow> (p', fq', rq, out, fl)))))"

text \<open>
  The same loop of the plain script \<^verbatim>\<open>src/vision/yolo_prediction.py\<close> (lines 93 to 97)
  keeps every box and clamps each corner to the frame \<open>W\<close> by \<open>H\<close>.
\<close>

definition clamp_coord :: "int \<Rightarrow> int \<Rightarrow> int" where
  "clamp_coord bound v = max 0 (min v (bound - 1))"

definition box_detection_plain :: "int \<Rightarrow> int \<Rightarrow> (int \<rightharpoonup> string) \<Rightarrow> box \<Rightarrow> exn + detection" where
  "box_detection_plain W H nm b =
     (case xyxy b of (x1, y1, x2, y2) \<Rightarrow>
        try_bind (py_int (cls b)) (\<lambda>c.
        try_bind (py_int x1) (\<lambda>ix1.
        try_bind (py_int y1) (\<lambda>iy1.
        try_bind (py_int x2) (\<lambda>ix2.
        try_bind (py_int y2) (\<lambda>iy2.
        try_bind (lookup nm c) (\<lambda>name.
          Inr (clamp_coord W ix1, clamp_coord H iy1, clamp_coord W ix2, clamp_coord H iy2,
               name @ '' '' @ format_f 2 (conf b)))))))))"

section \<open>The detection smoother\<close>

record smoother =
  smoothing_factor :: real
  max_history :: nat
  detection_history :: "detection list list"

definition SMOOTHING_FACTOR :: real where
  "SMOOTHING_FACTOR = 0.8"

text \<open>\<^verbatim>\<open>DetectionSmoother(smoothing_factor)\<close>, with the default \<^verbatim>\<open>max_history=5\<close>.\<close>

definition new_smoother :: "real \<Rightarrow> smoother" where
  "new_smoother sf = \<lparr>smoothing_factor = sf, max_history = 5, detection_history = []\<rparr>"

text \<open>\<^verbatim>\<open>label.split()[0]\<close>: \<open>IndexError\<close> on a label without a token.\<close>

definition first_token :: "string \<Rightarrow> exn + string" where
  "first_token label = (case str_split label of [] \<Rightarrow> Inl IndexError | t # ts \<Rightarrow> Inr t)"

text \<open>The test of lines 142 and 143, operands evaluated from left to right.\<close>

definition similar :: "detection \<Rightarrow> detection \<Rightarrow> exn + bool" where
  "similar det hist_det =
     (case det of (x1, y1, x2, y2, label) \<Rightarrow>
      case hist_det of (hx1, hy1, hx2, hy2, hlabel) \<Rightarrow>
        try_bind (first_token label) (\<lambda>t.
        try_bind (first_token hlabel) (\<lambda>ht.
          Inr (t = ht \<and> \<bar>x1 - hx1\<bar> < 50 \<and> \<bar>y1 - hy1\<bar> < 50))))"

text \<open>
  The two nested loops of lines 138 to 144 visit the detections of the history in order,
  oldest set first: \<open>hs\<close> is the history flattened, \<open>acc\<close> is \<^verbatim>\<open>similar_dets\<close>.
\<close>

fun find_similar :: "detection \<Rightarrow> detection list \<Rightarrow> detection list \<Rightarrow> exn + detection list" where
  "find_similar det [] acc = Inr acc"
| "find_similar det (h # hs) acc =
     (case similar det h of
        Inl e \<Rightarrow> Inl e
      | Inr True \<Rightarrow> find_similar det hs (acc @ [h])
      | Inr False \<Rightarrow> find_similar det hs acc)"

definition average :: "(detection \<Rightarrow> int) \<Rightarrow> detection list \<Rightarrow> real" where
  "average coord ds = real_of_int (sum_list (map coord ds)) / real (length ds)"

definition blend :: "real \<Rightarrow> int \<Rightarrow> real \<Rightarrow> int" where
  "blend sf x avg = py_trunc (real_of_int x * (1 - sf) + avg * sf)"

definition det_x1 :: "detection \<Rightarrow> int" where "det_x1 d = fst d"
definition det_y1 :: "detection \<Rightarrow> int" where "det_y1 d = fst (snd d)"
definition det_x2 :: "detection \<Rightarrow> int" where "det_x2 d = fst (snd (snd d))"
definition det_y2 :: "detection \<Rightarrow> int" where "det_y2 d = fst (snd (snd (snd d)))"
definition det_label :: "detection \<Rightarrow> string" where "det_label d = snd (snd (snd (snd d)))"

text \<open>Lines 134 to 161 for one detection of the current set.\<close>

definition smooth_one :: "real \<Rightarrow> detection list list \<Rightarrow> detection \<Rightarrow> exn + detection" where
  "smooth_one sf history det =
     (case det of (x1, y1, x2, y2, label) \<Rightarrow>
        try_bind (find_similar det (concat history) []) (\<lambda>similar_dets.
          if similar_dets \<noteq> [] then
            Inr (blend sf x1 (average det_x1 similar_dets),
                 blend sf y1 (average det_y1 similar_dets),
                 blend sf x2 (average det_x2 similar_dets),
                 blend sf y2 (average det_y2 similar_dets), label)
          else Inr det))"

fun smooth_loop :: "real \<Rightarrow> detection list list \<Rightarrow> detection list \<Rightarrow> detection list \<Rightarrow> exn + detection list" where
  "smooth_loop sf history [] smoothed_dets = Inr smoothed_dets"
| "smooth_loop sf history (det # dets) smoothed_dets =
     (case smooth_one sf history det of
        Inl e \<Rightarrow> Inl e
      | Inr d \<Rightarrow> smooth_loop sf history dets (smoothed_dets @ [d]))"

text \<open>
  \<^verbatim>\<open>smooth_detections\<close>: the value returned or the exception raised, and the smoother
  after the call (the history is extended before anything can raise).
\<close>

definition smooth_detections :: "detection list \<Rightarrow> smoother \<Rightarrow> (exn + detection list) \<times> smoother" where
  "smooth_detections current_dets s =
     (let s' = s\<lparr>detection_history :=
                   deque_append (max_history s) current_dets (detection_history s)\<rparr>
      in if length (detection_history s') < 2 then (Inr current_dets, s')
         else (smooth_loop (smoothing_factor s') (detection_history s') current_dets [], s'))"

section \<open>The performance adaptor\<close>

definition FRAME_SKIP :: int where
  "FRAME_SKIP = 2"

definition IMG_SIZE :: int where
  "IMG_SIZE = 416"

record adaptor =
  target_fps :: real
  adjustment_interval :: real
  last_adjustment :: real
  fps_history :: "real list"
  current_skip :: int
  current_img_size :: int

text \<open>
  \<^verbatim>\<open>PerformanceAdaptor(target_fps)\<close> with the default \<^verbatim>\<open>adjustment_interval=3.0\<close>,
  constructed when the clock reads \<open>now\<close>.
\<close>

definition new_adaptor :: "real \<Rightarrow> real \<Rightarrow> adaptor" where
  "new_adaptor target now =
     \<lparr>target_fps = target, adjustment_interval = 3.0, last_adjustment = now,
      fps_history = [], current_skip = FRAME_SKIP, current_img_size = IMG_SIZE\<rparr>"

text \<open>Lines 183 to 197: the knobs after an evaluation with average \<open>avg_fps\<close>, and the line printed.\<close>

definition adjust :: "real \<Rightarrow> adaptor \<Rightarrow> adaptor \<times> printed list" where
  "adjust avg_fps a =
     (if avg_fps < target_fps a * 0.8 then
        (if current_skip a < 4 then
           (let a' = a\<lparr>current_skip := current_skip a + 1\<rparr>
            in (a', [Printed (''Performance low ('' @ format_f 1 (Finite avg_fps)
                       @ '' FPS), increasing frame skip to '' @ str_int (current_skip a'))]))
         else if current_img_size a > 320 then
           (let a' = a\<lparr>current_img_size := max 320 (current_img_size a - 96)\<rparr>
            in (a', [Printed (''Reducing image size to '' @ str_int (current_img_size a'))]))
         else (a, []))
      else if avg_fps > target_fps a * 1.3 then
        (if current_skip a > 1 then
           (let a' = a\<lparr>current_skip := current_skip a - 1\<rparr>
            in (a', [Printed (''Performance good ('' @ format_f 1 (Finite avg_fps)
                       @ '' FPS), reducing frame skip to '' @ str_int (current_skip a'))]))
         else if current_img_size a < IMG_SIZE then
           (let a' = a\<lparr>current_img_size := min IMG_SIZE (current_img_size a + 96)\<rparr>
            in (a', [Printed (''Increasing image size to '' @ str_int (current_img_size a'))]))
         else (a, []))
      else (a, []))"

text \<open>
  \<^verbatim>\<open>update_performance(fps)\<close> when the clock reads \<open>now\<close> at line 178: the pair returned,
  the adaptor after the call, the lines printed.
\<close>

definition update_performance :: "real \<Rightarrow> real \<Rightarrow> adaptor \<Rightarrow> (int \<times> int) \<times> adaptor \<times> printed list" where
  "update_performance fps now a =
     (let a1 = a\<lparr>fps_history := deque_append 8 fps (fps_history a)\<rparr>;
          (a2, out) =
            (if now - last_adjustment a1 \<ge> adjustment_interval a1 \<and> length (fps_history a1) \<ge> 5 then
               (let avg_fps = sum_list (fps_history a1) / real (length (fps_history a1));
                    (a', out) = adjust avg_fps a1
                in (a'\<lparr>last_adjustment := now\<rparr>, out))
             else (a1, []))
      in ((current_skip a2, current_img_size a2), a2, out))"

section \<open>The overlay\<close>

text \<open>
  The overlay image is the list of drawing calls made on a transparent canvas, in order:
  \<^verbatim>\<open>rectangle(xy, fill, outline, width)\<close> and \<^verbatim>\<open>text(xy, text, fill)\<close>. The measure of a
  text in the default font, \<^verbatim>\<open>d.textbbox((0,0), s, font=font)[2:]\<close>, belongs to the imaging
  library and is the parameter \<open>text_size\<close>.
\<close>

type_synonym rgba = "nat \<times> nat \<times> nat \<times> nat"

datatype draw_op =
  Rectangle "int \<times> int \<times> int \<times> int" "rgba option" "rgba option" int
  | DrawText "int \<times> int" string rgba

record image =
  size_wh :: "int \<times> int"
  drawn :: "draw_op list"

text \<open>The loop of lines 211 to 231; \<open>d\<close> is what has been drawn so far.\<close>

fun overlay_loop :: "(string \<Rightarrow> int \<times> int) \<Rightarrow> detection list \<Rightarrow> draw_op list \<Rightarrow> draw_op list" where
  "overlay_loop text_size [] d = d"
| "overlay_loop text_size ((x1, y1, x2, y2, label) # dets) d =
     (let parts = str_split label in
      if length parts > 1 \<and>
         (case py_float (last parts) of
            None \<Rightarrow> False
          | Some conf' \<Rightarrow> float_lt conf' (Finite 0.5))
      then overlay_loop text_size dets d
      else
        (let d1 = d @ [Rectangle (x1, y1, x2, y2) None (Some (0, 255, 0, 255)) 2];
             box_area = (x2 - x1) * (y2 - y1)
         in if box_area > 2000 then
              (case text_size label of (tw, th) \<Rightarrow>
                 (let ylab = max 0 (y1 - th - 4)
                  in overlay_loop text_size dets
                       (d1 @ [Rectangle (x1, ylab, x1 + tw + 4, ylab + th + 2) (Some (0, 255, 0, 180)) None 1,
                              DrawText (x1 + 2, ylab) label (0, 0, 0, 255)])))
            else overlay_loop text_size dets d1))"

definition fps_readout :: "(string \<Rightarrow> int \<times> int) \<Rightarrow> real option \<Rightarrow> draw_op list" where
  "fps_readout text_size fps =
     (case fps of
        None \<Rightarrow> []
      | Some f \<Rightarrow>
          (let s = ''FPS: '' @ format_f 1 (Finite f)
           in case text_size s of (tw, th) \<Rightarrow>
                [Rectangle (8, 8, 8 + tw + 6, 8 + th + 4) (Some (0, 0, 0, 140)) None 1,
                 DrawText (10, 10) s (255, 255, 255, 255)]))"

definition make_overlay :: "(string \<Rightarrow> int \<times> int) \<Rightarrow> int \<times> int \<Rightarrow> detection list \<Rightarrow> real option \<Rightarrow> image" where
  "make_overlay text_size wh dets fps =
     \<lparr>size_wh = wh, drawn = overlay_loop text_size dets [] @ fps_readout text_size fps\<rparr>"

section \<open>The main loop\<close>

definition CAM_RES :: "int \<times> int" where
  "CAM_RES = (1280, 720)"

definition CONF_THRES :: pyfloat where
  "CONF_THRES = Finite 0.35"

definition OVERLAY_FPS :: real where
  "OVERLAY_FPS = 15"

text \<open>The thread object of lines 279 and 280.\<close>

definition new_processor :: processor where
  "new_processor =
     \<lparr>img_size = IMG_SIZE, conf_thres = CONF_THRES, frame_skip = FRAME_SKIP, frame_count = 0\<rparr>"

text \<open>
  The local variables of \<^verbatim>\<open>main\<close> that its loop reads and writes; \<open>overlay\<close> is the image
  last handed to \<^verbatim>\<open>picam2.set_overlay\<close>.
\<close>

record main_state =
  t_prev :: real
  frames :: int
  shown_fps :: real
  last_overlay :: real
  latest_dets :: "detection list"
  smoother :: smoother
  adaptor :: adaptor
  overlay :: "image option"

text \<open>Lines 286 to 293; the clock reads \<open>now\<close> at line 286 and \<open>now_adaptor\<close> at line 293.\<close>

definition new_main_state :: "real \<Rightarrow> real \<Rightarrow> main_state" where
  "new_main_state now now_adaptor =
     \<lparr>t_prev = now, frames = 0, shown_fps = 0, last_overlay = 0, latest_dets = [],
      smoother = new_smoother SMOOTHING_FACTOR, adaptor = new_adaptor 12 now_adaptor,
      overlay = None\<rparr>"

text \<open>
  One pass through the loop of \<^verbatim>\<open>main\<close> (lines 300 to 329), in its three parts.
  First the result queue is polled; an exception of the smoother is not caught in the loop
  and ends the program.
\<close>

definition drain_results ::
  "main_state \<Rightarrow> ('f \<times> detection list) queue \<Rightarrow> exn + main_state \<times> ('f \<times> detection list) queue" where
  "drain_results st result_queue =
     (case get_nowait result_queue of
        Inl e \<Rightarrow> if e = Empty then Inr (st, result_queue) else Inl e
      | Inr ((rgb, dets), rq') \<Rightarrow>
          (case smooth_detections dets (smoother st) of
             (Inl e, s') \<Rightarrow> Inl e
           | (Inr smoothed, s') \<Rightarrow> Inr (st\<lparr>latest_dets := smoothed, smoother := s'\<rparr>, rq')))"

text \<open>
  Then the frame rate (lines 310 to 323). The clock reads \<open>now\<close> at line 311 and
  \<open>now_adaptor\<close> inside \<^verbatim>\<open>update_performance\<close>. The pair that
  \<^verbatim>\<open>update_performance\<close> returns is bound to two local variables which nothing reads.
\<close>

definition fps_tick ::
  "real \<Rightarrow> real \<Rightarrow> 'f queue \<Rightarrow> ('f \<times> detection list) queue \<Rightarrow> main_state \<Rightarrow> main_state \<times> printed list" where
  "fps_tick now now_adaptor frame_queue result_queue st =
     (let st1 = st\<lparr>frames := frames st + 1\<rparr> in
      if now - t_prev st1 \<ge> 1.0 then
        (let fps = real_of_int (frames st1) / (now - t_prev st1);
             ((current_skip', current_img_size'), a', out_a) =
               update_performance fps now_adaptor (adaptor st1)
         in (st1\<lparr>shown_fps := fps, adaptor := a', frames := 0, t_prev := now\<rparr>,
             out_a @ [Printed (''Display FPS: '' @ format_f 1 (Finite fps)
               @ '', Capture queue: '' @ str_int (qsize frame_queue)
               @ '', Result queue: '' @ str_int (qsize result_queue)
               @ '', Detections: '' @ str_int (int (length (latest_dets st1))))]))
      else (st1, []))"

text \<open>Last the overlay (lines 326 to 329), at most \<open>OVERLAY_FPS\<close> times a second.\<close>

definition overlay_tick :: "(string \<Rightarrow> int \<times> int) \<Rightarrow> real \<Rightarrow> main_state \<Rightarrow> main_state" where
  "overlay_tick text_size now st =
     (if now - last_overlay st \<ge> 1.0 / OVERLAY_FPS then
        st\<lparr>overlay := Some (make_overlay text_size CAM_RES (latest_dets st) (Some (shown_fps st))),
           last_overlay := now\<rparr>
      else st)"

definition main_body ::
  "(string \<Rightarrow> int \<times> int) \<Rightarrow> real \<Rightarrow> real \<Rightarrow> 'f queue \<Rightarrow> main_state \<Rightarrow> ('f \<times> detection list) queue
     \<Rightarrow> exn + main_state \<times> ('f \<times> detection list) queue \<times> printed list" where
  "main_body text_size now now_adaptor frame_queue st result_queue =
     try_bind (drain_results st result_queue) (\<lambda>(st1, rq1).
       case fps_tick now now_adaptor frame_queue rq1 st1 of (st2, out) \<Rightarrow>
         Inr (overlay_tick text_size now st2, rq1, out))"

text \<open>The loop of \<^verbatim>\<open>main\<close> over the clock readings of its passes, until an exception.\<close>

fun run_main ::
  "(string \<Rightarrow> int \<times> int) \<Rightarrow> (real \<times> real) list \<Rightarrow> 'f queue \<Rightarrow> main_state \<Rightarrow> ('f \<times> detection list) queue
     \<Rightarrow> exn + main_state \<times> ('f \<times> detection list) queue" where
  "run_main text_size [] fq st rq = Inr (st, rq)"
| "run_main text_size ((now, now_adaptor) # clock) fq st rq =
     (case main_body text_size now now_adaptor fq st rq of
        Inl e \<Rightarrow> Inl e
      | Inr (st', rq', out) \<Rightarrow> run_main text_size clock fq st' rq')"

text \<open>
  The loop of \<^verbatim>\<open>YOLOProcessor.run\<close> for at most \<open>n\<close> passes with the stop event clear,
  until a \<^verbatim>\<open>break\<close>.
\<close>

fun run_processor ::
  "nat \<Rightarrow> ('f \<Rightarrow> exn + result list) \<Rightarrow> processor \<Rightarrow> 'f queue \<Rightarrow> ('f \<times> detection list) queue
     \<Rightarrow> processor \<times> 'f queue \<times> ('f \<times> detection list) queue" where
  "run_processor 0 model p fq rq = (p, fq, rq)"
| "run_processor (Suc n) model p fq rq =
     (case processor_body False model p fq rq of
        (p', fq', rq', out, Continue) \<Rightarrow> run_processor n model p' fq' rq'
      | (p', fq', rq', out, Break) \<Rightarrow> (p', fq', rq'))"

section \<open>Notions used to state the properties\<close>

text \<open>A sequence of calls of \<^verbatim>\<open>update_performance\<close>, each with its sample and clock reading.\<close>

fun run_updates :: "(real \<times> real) list \<Rightarrow> adaptor \<Rightarrow> adaptor" where
  "run_updates [] a = a"
| "run_updates ((fps, now) # calls) a = run_updates calls (fst (snd (update_performance fps now a)))"

definition knobs_inv :: "adaptor \<Rightarrow> bool" where
  "knobs_inv a = (1 \<le> current_skip a \<and> current_skip a \<le> 4 \<and>
                  (current_img_size a = 320 \<or> current_img_size a = IMG_SIZE))"

text \<open>
  The sample window that a call evaluates (the new sample is in it), and the test of
  line 179 on it.
\<close>

definition window :: "real \<Rightarrow> adaptor \<Rightarrow> real list" where
  "window fps a = deque_append 8 fps (fps_history a)"

definition gate :: "real \<Rightarrow> real \<Rightarrow> adaptor \<Rightarrow> bool" where
  "gate fps now a = (now - last_adjustment a \<ge> adjustment_interval a \<and> length (window fps a) \<ge> 5)"

text \<open>Two adaptors of \<^verbatim>\<open>main\<close> (target 12) after four measurements, slow and on target.\<close>

definition slow_adaptor :: adaptor where
  "slow_adaptor = (new_adaptor 12 0)\<lparr>fps_history := [3, 3, 3, 3]\<rparr>"

definition steady_adaptor :: adaptor where
  "steady_adaptor = (new_adaptor 12 0)\<lparr>fps_history := [12, 12, 12, 12]\<rparr>"

text \<open>A box that lies in a frame \<open>W\<close> by \<open>H\<close> with its corners in order.\<close>

definition in_frame :: "int \<Rightarrow> int \<Rightarrow> detection \<Rightarrow> bool" where
  "in_frame W H d = (case d of (x1, y1, x2, y2, label) \<Rightarrow>
      0 \<le> x1 \<and> x1 \<le> x2 \<and> x2 < W \<and> 0 \<le> y1 \<and> y1 \<le> y2 \<and> y2 < H)"

text \<open>
  The states of the two channels and of the inference thread that the three threads can
  reach from the start of \<^verbatim>\<open>main\<close>: the passes of the capture loop, of the inference
  loop and the polls of \<^verbatim>\<open>main\<close> interleave in any order, each pass taken as one step.
\<close>

inductive pipeline_reach ::
  "('f \<Rightarrow> exn + result list) \<Rightarrow> 'f queue \<times> processor \<times> ('f \<times> detection list) queue \<Rightarrow> bool"
  for model :: "'f \<Rightarrow> exn + result list" where
  start: "pipeline_reach model (new_queue BUFFER_SIZE, new_processor, new_queue BUFFER_SIZE)"
| capture: "pipeline_reach model (fq, p, rq) \<Longrightarrow>
     pipeline_reach model (fst (capture_body stop_set captured fq), p, rq)"
| infer: "pipeline_reach model (fq, p, rq) \<Longrightarrow>
     processor_body stop_set model p fq rq = (p', fq', rq', out, fl) \<Longrightarrow>
     pipeline_reach model (fq', p', rq')"
| drain: "pipeline_reach model (fq, p, rq) \<Longrightarrow> get_nowait rq = Inr (item, rq') \<Longrightarrow>
     pipeline_reach model (fq, p, rq')"

text \<open>
  One channel at the grain of the queue's own operations. Its only producer tests
  \<^verbatim>\<open>full()\<close> and then calls \<^verbatim>\<open>put\<close>; the consumer may take items at any moment, also
  between the test and the put. \<open>Tested x\<close> is the producer after a test that found room,
  holding the item \<open>x\<close>.
\<close>

datatype 'a producer = Idle | Tested 'a

inductive channel_reach :: "int \<Rightarrow> 'a queue \<times> 'a producer \<Rightarrow> bool"
  for n :: int where
  fresh: "channel_reach n (new_queue n, Idle)"
| test: "channel_reach n (q, Idle) \<Longrightarrow> \<not> full q \<Longrightarrow> channel_reach n (q, Tested x)"
| put: "channel_reach n (q, Tested x) \<Longrightarrow> put_nowait x q = Inr q' \<Longrightarrow>
     channel_reach n (q', Idle)"
| refused: "channel_reach n (q, Tested x) \<Longrightarrow> put_nowait x q = Inl e \<Longrightarrow>
     channel_reach n (q, Idle)"
| take: "channel_reach n (q, pc) \<Longrightarrow> get_nowait q = Inr (y, q') \<Longrightarrow>
     channel_reach n (q', pc)"

text \<open>Concrete inputs: a fixed-pitch font, frames numbered, two detectors.\<close>

definition char_cell :: "string \<Rightarrow> int \<times> int" where
  "char_cell s = (6 * int (length s), 11)"

definition no_objects :: "nat \<Rightarrow> exn + result list" where
  "no_objects frame = Inr []"

definition edge_box :: box where
  "edge_box = \<lparr>xyxy = (Finite 900.4, Finite 300.2, Finite 1280, Finite 720),
               conf = Finite 0.9, cls = Finite 0\<rparr>"

definition edge_model :: "nat \<Rightarrow> exn + result list" where
  "edge_model frame = Inr [\<lparr>names = [0 \<mapsto> ''person''], boxes = [edge_box]\<rparr>]"

definition full_queue :: "nat queue" where
  "full_queue = \<lparr>maxsize = BUFFER_SIZE, items = [1, 2, 3]\<rparr>"

definition full_result_queue :: "(nat \<times> detection list) queue" where
  "full_result_queue = \<lparr>maxsize = BUFFER_SIZE, items = [(1, []), (2, []), (3, [])]\<rparr>"





text \<open>Concrete detections: two classes that share their first word, one person, two persons.\<close>

definition bat :: detection where
  "bat = (100, 100, 200, 200, ''baseball bat 0.90'')"

definition glove :: detection where
  "glove = (121, 121, 221, 221, ''baseball glove 0.90'')"




text \<open>
  What the overlay draws for one detection: the outline (line 223) and the caption, a
  filled box with the label in it (lines 228 to 231).
\<close>

definition outline_of :: "detection \<Rightarrow> draw_op" where
  "outline_of d = (case d of (x1, y1, x2, y2, label) \<Rightarrow>
     Rectangle (x1, y1, x2, y2) None (Some (0, 255, 0, 255)) 2)"

definition caption_of :: "(string \<Rightarrow> int \<times> int) \<Rightarrow> detection \<Rightarrow> draw_op list" where
  "caption_of text_size d = (case d of (x1, y1, x2, y2, label) \<Rightarrow>
     (let ylab = max 0 (y1 - snd (text_size label) - 4)
      in [Rectangle (x1, ylab, x1 + fst (text_size label) + 4, ylab + snd (text_size label) + 2)
            (Some (0, 255, 0, 180)) None 1,
          DrawText (x1 + 2, ylab) label (0, 0, 0, 255)]))"

definition box_area_of :: "detection \<Rightarrow> int" where
  "box_area_of d = (det_x2 d - det_x1 d) * (det_y2 d - det_y1 d)"

text \<open>The label has at least two tokens and the last one reads as a float below 0.5.\<close>

definition below_floor :: "string \<Rightarrow> bool" where
  "below_floor label =
     (length (str_split label) > 1 \<and>
      (\<exists>c. py_float (last (str_split label)) = Some c \<and> float_lt c (Finite 0.5)))"

section \<open>The performance adaptor: properties\<close>

lemma adjust_skip:
  "current_skip (fst (adjust avg a)) =
     (if avg < target_fps a * 0.8 then (if current_skip a < 4 then current_skip a + 1 else current_skip a)
      else if avg > target_fps a * 1.3 then (if current_skip a > 1 then current_skip a - 1 else current_skip a)
      else current_skip a)"
  by (simp add: adjust_def Let_def)

lemma adjust_img:
  "current_img_size (fst (adjust avg a)) =
     (if avg < target_fps a * 0.8 then
        (if \<not> current_skip a < 4 \<and> current_img_size a > 320
         then max 320 (current_img_size a - 96) else current_img_size a)
      else if avg > target_fps a * 1.3 then
        (if \<not> current_skip a > 1 \<and> current_img_size a < IMG_SIZE
         then min IMG_SIZE (current_img_size a + 96) else current_img_size a)
      else current_img_size a)"
  by (simp add: adjust_def Let_def)

lemma adjust_rest:
  "target_fps (fst (adjust avg a)) = target_fps a"
  "adjustment_interval (fst (adjust avg a)) = adjustment_interval a"
  "last_adjustment (fst (adjust avg a)) = last_adjustment a"
  "fps_history (fst (adjust avg a)) = fps_history a"
  by (simp_all add: adjust_def Let_def)

lemma update_adaptor:
  "fst (snd (update_performance fps now a)) =
     (if gate fps now a
      then (fst (adjust (sum_list (window fps a) / real (length (window fps a)))
                   (a\<lparr>fps_history := window fps a\<rparr>)))\<lparr>last_adjustment := now\<rparr>
      else a\<lparr>fps_history := window fps a\<rparr>)"
  by (simp add: update_performance_def gate_def window_def Let_def case_prod_beta)


lemma update_printed:
  "snd (snd (update_performance fps now a)) =
     (if gate fps now a
      then snd (adjust (sum_list (window fps a) / real (length (window fps a)))
                   (a\<lparr>fps_history := window fps a\<rparr>))
      else [])"
  by (simp add: update_performance_def gate_def window_def Let_def case_prod_beta)

lemma knobs_inv_update: "knobs_inv a \<Longrightarrow> knobs_inv (fst (snd (update_performance fps now a)))"
  by (auto simp add: knobs_inv_def update_adaptor adjust_skip adjust_img IMG_SIZE_def)

lemma knobs_inv_run: "knobs_inv a \<Longrightarrow> knobs_inv (run_updates calls a)"
  by (induction calls arbitrary: a) (auto simp: knobs_inv_update)

lemma knobs_inv_new: "knobs_inv (new_adaptor target now)"
  by (simp add: knobs_inv_def new_adaptor_def FRAME_SKIP_def IMG_SIZE_def)

lemma img_step:
  "knobs_inv a \<Longrightarrow>
   current_img_size (fst (snd (update_performance fps now a))) = current_img_size a \<or>
   current_img_size (fst (snd (update_performance fps now a))) = current_img_size a + 96 \<or>
   current_img_size (fst (snd (update_performance fps now a))) = current_img_size a - 96"
  by (auto simp add: knobs_inv_def update_adaptor adjust_img IMG_SIZE_def)

text \<open>
  C5. After any sequence of calls of \<^verbatim>\<open>update_performance\<close> on a fresh adaptor, whatever
  the samples and the clock readings, the decimation factor is between 1 and 4 and the
  inference resolution between 320 and \<open>IMG_SIZE\<close>; and one more call leaves the resolution
  where it is or moves it by exactly 96.
\<close>

theorem adaptor_knobs_stay_in_range:
  "let a = run_updates calls (new_adaptor target now0);
       a' = fst (snd (update_performance fps now a))
   in 1 \<le> current_skip a \<and> current_skip a \<le> 4 \<and>
      320 \<le> current_img_size a \<and> current_img_size a \<le> IMG_SIZE \<and>
      (current_img_size a' = current_img_size a \<or>
       current_img_size a' = current_img_size a + 96 \<or>
       current_img_size a' = current_img_size a - 96)"
proof -
  have inv: "knobs_inv (run_updates calls (new_adaptor target now0))"
    by (rule knobs_inv_run [OF knobs_inv_new])
  then have "1 \<le> current_skip (run_updates calls (new_adaptor target now0))"
    "current_skip (run_updates calls (new_adaptor target now0)) \<le> 4"
    "320 \<le> current_img_size (run_updates calls (new_adaptor target now0))"
    "current_img_size (run_updates calls (new_adaptor target now0)) \<le> IMG_SIZE"
    by (auto simp: knobs_inv_def IMG_SIZE_def)
  with img_step [OF inv, of fps now] show ?thesis
    by (simp add: Let_def)
qed



text \<open>
  C7. Every call appends its sample to the window (of at most eight). When the interval
  has elapsed and the window holds at least five samples, the time of the last adjustment
  becomes the current time, whatever the average; otherwise both knobs and that time are
  unchanged and nothing is printed.
\<close>

theorem update_performance_gate:
  "let a' = fst (snd (update_performance fps now a))
   in fps_history a' = deque_append 8 fps (fps_history a) \<and>
      last (fps_history a') = fps \<and>
      length (fps_history a') = min 8 (length (fps_history a) + 1) \<and>
      (if adjustment_interval a \<le> now - last_adjustment a \<and> 5 \<le> length (fps_history a')
       then last_adjustment a' = now
       else current_skip a' = current_skip a \<and> current_img_size a' = current_img_size a \<and>
            last_adjustment a' = last_adjustment a \<and>
            snd (snd (update_performance fps now a)) = [])"
  unfolding Let_def
  by (auto simp add: update_adaptor update_printed adjust_rest adjust_skip adjust_img gate_def
      window_def deque_append_def Let_def)

theorem update_performance_gate_witness:
  "last_adjustment (fst (snd (update_performance 12 5 steady_adaptor))) = 5 \<and>
   current_skip (fst (snd (update_performance 12 5 steady_adaptor))) = 2 \<and>
   last_adjustment (fst (snd (update_performance 3 2 slow_adaptor))) = 0 \<and>
   current_skip (fst (snd (update_performance 3 2 slow_adaptor))) = 2 \<and>
   fps_history (fst (snd (update_performance 3 2 slow_adaptor))) = [3, 3, 3, 3, 3]"
proof -
  have met: "adjustment_interval steady_adaptor \<le> 5 - last_adjustment steady_adaptor \<and>
             5 \<le> length (deque_append 8 (12::real) (fps_history steady_adaptor))"
    by (simp add: steady_adaptor_def new_adaptor_def deque_append_def)
  have unmet: "\<not> (adjustment_interval slow_adaptor \<le> 2 - last_adjustment slow_adaptor \<and>
             5 \<le> length (deque_append 8 (3::real) (fps_history slow_adaptor)))"
    by (simp add: slow_adaptor_def new_adaptor_def deque_append_def)
  have old: "last_adjustment slow_adaptor = 0" "current_skip slow_adaptor = 2"
    "deque_append 8 (3::real) (fps_history slow_adaptor) = [3, 3, 3, 3, 3]"
    by (simp_all add: slow_adaptor_def new_adaptor_def deque_append_def FRAME_SKIP_def)
  have dead: "current_skip (fst (snd (update_performance 12 5 steady_adaptor))) = 2"
    by (simp add: update_adaptor adjust_skip gate_def window_def steady_adaptor_def new_adaptor_def
        deque_append_def FRAME_SKIP_def)
  from update_performance_gate [of 12 5 steady_adaptor] met
  have a: "last_adjustment (fst (snd (update_performance 12 5 steady_adaptor))) = 5"
    unfolding Let_def by (metis (full_types))
  from update_performance_gate [of 3 2 slow_adaptor] unmet old
  have b: "last_adjustment (fst (snd (update_performance 3 2 slow_adaptor))) = 0 \<and>
           current_skip (fst (snd (update_performance 3 2 slow_adaptor))) = 2 \<and>
           fps_history (fst (snd (update_performance 3 2 slow_adaptor))) = [3, 3, 3, 3, 3]"
    unfolding Let_def by (metis (full_types))
  from a b dead show ?thesis by blast
qed

section \<open>The channels: properties\<close>

lemma capture_full: "full q \<Longrightarrow> capture_body stop_set (Inr rgb) q = (q, [], Continue)"
  by (simp add: capture_body_def capture_publish_def try_bind_def)

lemma capture_bound:
  "0 < maxsize q \<Longrightarrow> qsize q \<le> maxsize q \<Longrightarrow>
   maxsize (fst (capture_body stop_set captured q)) = maxsize q \<and>
   qsize (fst (capture_body stop_set captured q)) \<le> maxsize q"
  by (cases captured)
     (auto simp: capture_body_def capture_publish_def try_bind_def put_nowait_def full_def qsize_def
        split: if_splits)

lemma result_publish_full: "full q \<Longrightarrow> result_publish item q = Inr q"
  by (simp add: result_publish_def)

lemma result_publish_bound:
  "0 < maxsize q \<Longrightarrow> qsize q \<le> maxsize q \<Longrightarrow> result_publish item q = Inr q' \<Longrightarrow>
   maxsize q' = maxsize q \<and> qsize q' \<le> maxsize q"
  by (auto simp: result_publish_def put_nowait_def full_def qsize_def split: if_splits)

lemma get_nowait_bound:
  "get_nowait q = Inr (x, q') \<Longrightarrow> maxsize q' = maxsize q \<and> qsize q' \<le> qsize q"
  by (auto simp: get_nowait_def qsize_def split: list.splits)

lemma processor_full:
  "full rq \<Longrightarrow> get_nowait fq = Inr (frame, fq') \<Longrightarrow> frame_skip p \<noteq> 0 \<Longrightarrow>
   (frame_count p + 1) mod frame_skip p = 0 \<Longrightarrow> model frame = Inr results \<Longrightarrow>
   extract_dets (conf_thres p) results = Inr dets \<Longrightarrow>
   processor_body stop_set model p fq rq =
     (p\<lparr>frame_count := frame_count p + 1\<rparr>, fq', rq, [], Continue)"
  by (simp add: processor_body_def Let_def try_bind_def result_publish_full)

lemma processor_result_queue:
  "processor_body stop_set model p fq rq = (p', fq', rq', out, fl) \<Longrightarrow>
   rq' = rq \<or>
   (\<exists>frame fq'' results dets. get_nowait fq = Inr (frame, fq'') \<and> model frame = Inr results \<and>
       extract_dets (conf_thres p) results = Inr dets \<and> result_publish (frame, dets) rq = Inr rq')"
  by (auto simp: processor_body_def Let_def try_bind_def case_prod_beta split: sum.splits if_splits)

lemma processor_frame_queue:
  "processor_body stop_set model p fq rq = (p', fq', rq', out, fl) \<Longrightarrow>
   fq' = fq \<or> (\<exists>frame. get_nowait fq = Inr (frame, fq'))"
  by (auto simp: processor_body_def Let_def try_bind_def case_prod_beta split: sum.splits if_splits)

lemma processor_bound:
  assumes "processor_body stop_set model p fq rq = (p', fq', rq', out, fl)"
  shows "(0 < maxsize rq \<and> qsize rq \<le> maxsize rq \<longrightarrow>
            maxsize rq' = maxsize rq \<and> qsize rq' \<le> maxsize rq) \<and>
         maxsize fq' = maxsize fq \<and> qsize fq' \<le> qsize fq"
  using processor_result_queue [OF assms] processor_frame_queue [OF assms]
  by (auto dest: result_publish_bound get_nowait_bound)

lemma pipeline_bound:
  "pipeline_reach model s \<Longrightarrow>
   maxsize (fst s) = BUFFER_SIZE \<and> qsize (fst s) \<le> BUFFER_SIZE \<and>
   maxsize (snd (snd s)) = BUFFER_SIZE \<and> qsize (snd (snd s)) \<le> BUFFER_SIZE"
proof (induction rule: pipeline_reach.induct)
  case start
  then show ?case by (simp add: new_queue_def qsize_def BUFFER_SIZE_def)
next
  case (capture fq p rq stop_set captured)
  then show ?case using capture_bound [of fq stop_set captured] by (simp add: BUFFER_SIZE_def)
next
  case (infer fq p rq stop_set p' fq' rq' out fl)
  then show ?case using processor_bound [OF infer.hyps(2)] by (auto simp: BUFFER_SIZE_def)
next
  case (drain fq p rq item rq')
  then show ?case using get_nowait_bound [OF drain.hyps(2)] by auto
qed

lemma channel_inv:
  "channel_reach n s \<Longrightarrow> 0 < n \<Longrightarrow>
   maxsize (fst s) = n \<and> qsize (fst s) \<le> n \<and> (snd s \<noteq> Idle \<longrightarrow> qsize (fst s) < n)"
proof (induction rule: channel_reach.induct)
  case fresh
  then show ?case by (simp add: new_queue_def qsize_def)
next
  case (test q x)
  then show ?case by (simp add: full_def)
next
  case (put q x q')
  then show ?case by (auto simp: put_nowait_def qsize_def split: if_splits)
next
  case (refused q x e)
  then show ?case by simp
next
  case (take q pc y q')
  then show ?case using get_nowait_bound [OF take.hyps(2)] by auto
qed

lemma tested_put_succeeds:
  assumes "channel_reach n (q, Tested x)" and "0 < n"
  shows "put_nowait x q = Inr (q\<lparr>items := items q @ [x]\<rparr>)"
  using channel_inv [OF assms] by (simp add: put_nowait_def)

text \<open>
  C8. A pass of the capture loop that has a frame to publish while the frame queue is full
  leaves the queue as it is, prints nothing and goes on; so does a pass of the inference
  loop that has a result to publish while the result queue is full (the frame is consumed
  and counted, the result dropped). The publish is \<^verbatim>\<open>put(block=False)\<close> behind a test of
  \<^verbatim>\<open>full()\<close>, which returns at once. In every state the threads can reach, neither queue
  holds more than \<open>BUFFER_SIZE\<close> items; and since each queue has one producer, a put that
  follows a test which found room is never refused, whatever the consumer did in between.
\<close>

theorem publish_on_full_channel_is_dropped:
  "(full q \<longrightarrow> capture_body stop_set (Inr rgb) q = (q, [], Continue)) \<and>
   (full rq \<and> get_nowait fq = Inr (frame, fq') \<and> frame_skip p \<noteq> 0 \<and>
    (frame_count p + 1) mod frame_skip p = 0 \<and> model frame = Inr results \<and>
    extract_dets (conf_thres p) results = Inr dets \<longrightarrow>
      processor_body stop_set model p fq rq =
        (p\<lparr>frame_count := frame_count p + 1\<rparr>, fq', rq, [], Continue)) \<and>
   (pipeline_reach model (cq, cp, crq) \<longrightarrow> qsize cq \<le> BUFFER_SIZE \<and> qsize crq \<le> BUFFER_SIZE) \<and>
   (channel_reach BUFFER_SIZE (tq, Tested x) \<longrightarrow>
      qsize tq < BUFFER_SIZE \<and> put_nowait x tq = Inr (tq\<lparr>items := items tq @ [x]\<rparr>))"
proof (intro conjI impI)
  assume "full q"
  then show "capture_body stop_set (Inr rgb) q = (q, [], Continue)"
    by (rule capture_full)
next
  assume "full rq \<and> get_nowait fq = Inr (frame, fq') \<and> frame_skip p \<noteq> 0 \<and>
    (frame_count p + 1) mod frame_skip p = 0 \<and> model frame = Inr results \<and>
    extract_dets (conf_thres p) results = Inr dets"
  then show "processor_body stop_set model p fq rq =
        (p\<lparr>frame_count := frame_count p + 1\<rparr>, fq', rq, [], Continue)"
    by (simp add: processor_full)
next
  assume "pipeline_reach model (cq, cp, crq)"
  from pipeline_bound [OF this] show "qsize cq \<le> BUFFER_SIZE" "qsize crq \<le> BUFFER_SIZE"
    by simp_all
next
  assume r: "channel_reach BUFFER_SIZE (tq, Tested x)"
  have pos: "0 < BUFFER_SIZE" by (simp add: BUFFER_SIZE_def)
  from channel_inv [OF r pos] show "qsize tq < BUFFER_SIZE" by simp
  from tested_put_succeeds [OF r pos]
  show "put_nowait x tq = Inr (tq\<lparr>items := items tq @ [x]\<rparr>)" .
qed

theorem publish_on_full_channel_is_dropped_witness:
  "full full_queue \<and> capture_body False (Inr 4) full_queue = (full_queue, [], Continue) \<and>
   full full_result_queue \<and>
   processor_body False no_objects (new_processor\<lparr>frame_count := 1\<rparr>)
       \<lparr>maxsize = BUFFER_SIZE, items = [7]\<rparr> full_result_queue =
     (new_processor\<lparr>frame_count := 2\<rparr>, \<lparr>maxsize = BUFFER_SIZE, items = []\<rparr>, full_result_queue,
      [], Continue) \<and>
   pipeline_reach no_objects (new_queue BUFFER_SIZE, new_processor, new_queue BUFFER_SIZE) \<and>
   qsize (new_queue BUFFER_SIZE :: nat queue) \<le> BUFFER_SIZE \<and>
   channel_reach BUFFER_SIZE (new_queue BUFFER_SIZE, Tested (4 :: nat)) \<and>
   put_nowait (4 :: nat) (new_queue BUFFER_SIZE) = Inr \<lparr>maxsize = BUFFER_SIZE, items = [4]\<rparr>"
proof -
  let ?p = "new_processor\<lparr>frame_count := 1\<rparr>"
  let ?fq = "\<lparr>maxsize = BUFFER_SIZE, items = [7::nat]\<rparr>"
  have f1: "full full_queue"
    by (simp add: full_def full_queue_def qsize_def BUFFER_SIZE_def)
  have f2: "full full_result_queue"
    by (simp add: full_def full_result_queue_def qsize_def BUFFER_SIZE_def)
  have g: "get_nowait ?fq = Inr (7, \<lparr>maxsize = BUFFER_SIZE, items = []\<rparr>)"
    by (simp add: get_nowait_def)
  have k: "frame_skip ?p \<noteq> 0" "(frame_count ?p + 1) mod frame_skip ?p = 0"
    "?p\<lparr>frame_count := frame_count ?p + 1\<rparr> = new_processor\<lparr>frame_count := 2\<rparr>"
    by (simp_all add: new_processor_def FRAME_SKIP_def)
  have m: "no_objects 7 = Inr []" "extract_dets (conf_thres ?p) [] = Inr []"
    by (simp_all add: no_objects_def extract_dets_def)
  have r: "pipeline_reach no_objects (new_queue BUFFER_SIZE, new_processor, new_queue BUFFER_SIZE)"
    by (rule pipeline_reach.start)
  have "\<not> full (new_queue BUFFER_SIZE :: nat queue)"
    by (simp add: full_def new_queue_def qsize_def BUFFER_SIZE_def)
  then have t: "channel_reach BUFFER_SIZE (new_queue BUFFER_SIZE, Tested (4 :: nat))"
    by (rule channel_reach.test [OF channel_reach.fresh])
  have u: "(new_queue BUFFER_SIZE)\<lparr>items := items (new_queue BUFFER_SIZE) @ [4 :: nat]\<rparr> =
           \<lparr>maxsize = BUFFER_SIZE, items = [4]\<rparr>"
    by (simp add: new_queue_def)
  note inst = publish_on_full_channel_is_dropped
    [of full_queue False 4 full_result_queue ?fq 7 "\<lparr>maxsize = BUFFER_SIZE, items = []\<rparr>" ?p
        no_objects "[]" "[]" "new_queue BUFFER_SIZE" new_processor "new_queue BUFFER_SIZE"
        "new_queue BUFFER_SIZE :: nat queue" "4 :: nat"]
  from inst f1 have a: "capture_body False (Inr 4) full_queue = (full_queue, [], Continue)"
    by blast
  from inst f2 g k m
  have b: "processor_body False no_objects ?p ?fq full_result_queue =
     (new_processor\<lparr>frame_count := 2\<rparr>, \<lparr>maxsize = BUFFER_SIZE, items = []\<rparr>, full_result_queue,
      [], Continue)"
    by simp
  from inst r have c: "qsize (new_queue BUFFER_SIZE :: nat queue) \<le> BUFFER_SIZE"
    by blast
  from inst t u
  have d: "put_nowait (4 :: nat) (new_queue BUFFER_SIZE) = Inr \<lparr>maxsize = BUFFER_SIZE, items = [4]\<rparr>"
    by simp
  from f1 f2 a b c d r t show ?thesis by blast
qed

section \<open>The inference thread: properties\<close>

lemma drain_empty: "items rq = [] \<Longrightarrow> drain_results st rq = Inr (st, rq)"
  by (simp add: drain_results_def get_nowait_def)

lemma overlay_tick_keeps:
  "adaptor (overlay_tick ts now st) = adaptor st"
  "t_prev (overlay_tick ts now st) = t_prev st"
  "frames (overlay_tick ts now st) = frames st"
  by (simp_all add: overlay_tick_def)

lemma fps_tick_adaptor:
  "adaptor (fst (fps_tick now na fq rq st)) =
     (if now - t_prev st \<ge> 1
      then fst (snd (update_performance (real_of_int (frames st + 1) / (now - t_prev st)) na
                       (adaptor st)))
      else adaptor st)"
  by (simp add: fps_tick_def Let_def case_prod_beta)

lemma fps_tick_clock:
  "t_prev (fst (fps_tick now na fq rq st)) = (if now - t_prev st \<ge> 1 then now else t_prev st)"
  "frames (fst (fps_tick now na fq rq st)) = (if now - t_prev st \<ge> 1 then 0 else frames st + 1)"
  by (simp_all add: fps_tick_def Let_def case_prod_beta)

lemma main_body_idle:
  "items rq = [] \<Longrightarrow>
   main_body ts now na fq st rq =
     Inr (overlay_tick ts now (fst (fps_tick now na fq rq st)), rq, snd (fps_tick now na fq rq st))"
  by (simp add: main_body_def drain_empty try_bind_def case_prod_beta)

lemma frame_skip_fixed: "frame_skip (fst (processor_body stop_set model p fq rq)) = frame_skip p"
  by (auto simp: processor_body_def Let_def case_prod_beta split: sum.splits prod.splits)

lemma pipeline_frame_skip: "pipeline_reach model s \<Longrightarrow> frame_skip (fst (snd s)) = FRAME_SKIP"
proof (induction rule: pipeline_reach.induct)
  case start
  then show ?case by (simp add: new_processor_def)
next
  case (infer fq p rq stop_set p' fq' rq' out fl)
  then show ?case using frame_skip_fixed [of stop_set model p fq rq] by simp
qed simp_all

text \<open>
  C1. The loop of \<^verbatim>\<open>main\<close> runs five passes one second apart with nothing to display, so
  the adaptor measures one frame a second and raises its decimation factor to 3. The
  inference thread, created with \<open>FRAME_SKIP\<close>, then receives two frames: it still
  decimates by 2, its counter 2 is no multiple of the adaptor's factor 3, and the second
  frame is inferred and its result published.
\<close>

theorem decimation_ignores_adaptor:
  "(case run_main char_cell [(1, 1), (2, 2), (3, 3), (4, 4), (5, 5)]
           (new_queue BUFFER_SIZE :: nat queue) (new_main_state 0 0) (new_queue BUFFER_SIZE) of
      Inl e \<Rightarrow> False
    | Inr (st, rq) \<Rightarrow>
        (case run_processor 2 no_objects new_processor \<lparr>maxsize = BUFFER_SIZE, items = [7, 8]\<rparr>
                (new_queue BUFFER_SIZE) of
           (p, fq', rq') \<Rightarrow>
             current_skip (adaptor st) = 3 \<and> frame_skip p = 2 \<and> frame_count p = 2 \<and>
             frame_count p mod current_skip (adaptor st) \<noteq> 0 \<and> items rq' = [(8, [])]))"
proof -
  have e: "items (new_queue BUFFER_SIZE :: (nat \<times> detection list) queue) = []"
    by (simp add: new_queue_def)
  have s0: "t_prev (new_main_state 0 0) = 0" "frames (new_main_state 0 0) = 0"
    "adaptor (new_main_state 0 0) = new_adaptor 12 0"
    by (simp_all add: new_main_state_def)
  have p: "run_processor 2 no_objects new_processor \<lparr>maxsize = BUFFER_SIZE, items = [7, 8]\<rparr>
             (new_queue BUFFER_SIZE) =
           (new_processor\<lparr>frame_count := 2\<rparr>, \<lparr>maxsize = BUFFER_SIZE, items = []\<rparr>,
            \<lparr>maxsize = BUFFER_SIZE, items = [(8, [])]\<rparr>)"
    by (simp add: numeral_2_eq_2 processor_body_def get_nowait_def new_processor_def FRAME_SKIP_def
        no_objects_def try_bind_def extract_dets_def result_publish_def full_def put_nowait_def
        qsize_def new_queue_def BUFFER_SIZE_def)
  show ?thesis
    unfolding p
    by (simp add: main_body_idle [OF e] overlay_tick_keeps fps_tick_adaptor fps_tick_clock s0
        update_adaptor adjust_skip gate_def window_def new_adaptor_def deque_append_def
        FRAME_SKIP_def new_processor_def)
qed

lemma try_bind_Inr: "try_bind m f = Inr y \<Longrightarrow> \<exists>x. m = Inr x \<and> f x = Inr y"
  by (cases m) (simp_all add: try_bind_def)

lemma clamp_coord_range: "0 < bound \<Longrightarrow> 0 \<le> clamp_coord bound v \<and> clamp_coord bound v < bound"
  by (simp add: clamp_coord_def)

lemma plain_script_clamps:
  assumes "box_detection_plain W H nm b = Inr (x1, y1, x2, y2, label)" and "0 < W" and "0 < H"
  shows "0 \<le> x1 \<and> x1 < W \<and> 0 \<le> x2 \<and> x2 < W \<and> 0 \<le> y1 \<and> y1 < H \<and> 0 \<le> y2 \<and> y2 < H"
proof -
  obtain a b' c d where "xyxy b = (a, b', c, d)"
    by (cases "xyxy b") auto
  with assms(1) obtain ix1 iy1 ix2 iy2 where
    "x1 = clamp_coord W ix1" "y1 = clamp_coord H iy1"
    "x2 = clamp_coord W ix2" "y2 = clamp_coord H iy2"
    unfolding box_detection_plain_def
    by (auto dest!: try_bind_Inr)
  with assms(2,3) show ?thesis
    by (simp add: clamp_coord_range)
qed

text \<open>
  C2. The detector returns one box that touches the right and the bottom edge of a frame
  of 1280 by 720. The inference thread publishes its corners truncated, (900, 300, 1280,
  720), which is not inside the frame; the loop of the plain script
  \<^verbatim>\<open>yolo_prediction.py\<close> clamps the same box to (900, 300, 1279, 719).
\<close>

theorem unclamped_box_is_published:
  "processor_body False edge_model (new_processor\<lparr>frame_count := 1\<rparr>)
       \<lparr>maxsize = BUFFER_SIZE, items = [7]\<rparr> (new_queue BUFFER_SIZE) =
     (new_processor\<lparr>frame_count := 2\<rparr>, \<lparr>maxsize = BUFFER_SIZE, items = []\<rparr>,
      \<lparr>maxsize = BUFFER_SIZE, items = [(7, [(900, 300, 1280, 720, ''person 0.90'')])]\<rparr>,
      [], Continue) \<and>
   \<not> in_frame (fst CAM_RES) (snd CAM_RES) (900, 300, 1280, 720, ''person 0.90'') \<and>
   box_detection_plain (fst CAM_RES) (snd CAM_RES) [0 \<mapsto> ''person''] edge_box =
     Inr (900, 300, 1279, 719, ''person 0.90'') \<and>
   in_frame (fst CAM_RES) (snd CAM_RES) (900, 300, 1279, 719, ''person 0.90'')"
proof -
  have d: "box_detection [0 \<mapsto> ''person''] CONF_THRES edge_box =
             Inr (Some (900, 300, 1280, 720, ''person 0.90''))"
    by (simp add: box_detection_def edge_box_def CONF_THRES_def try_bind_def py_trunc_def
        lookup_def round_half_even_def zero_pad_def digit_char_def)
  have b: "box_detection_plain 1280 720 [0 \<mapsto> ''person''] edge_box =
             Inr (900, 300, 1279, 719, ''person 0.90'')"
    by (simp add: box_detection_plain_def edge_box_def try_bind_def py_trunc_def lookup_def
        round_half_even_def zero_pad_def digit_char_def clamp_coord_def)
  have r: "processor_body False edge_model (new_processor\<lparr>frame_count := 1\<rparr>)
       \<lparr>maxsize = BUFFER_SIZE, items = [7]\<rparr> (new_queue BUFFER_SIZE) =
     (new_processor\<lparr>frame_count := 2\<rparr>, \<lparr>maxsize = BUFFER_SIZE, items = []\<rparr>,
      \<lparr>maxsize = BUFFER_SIZE, items = [(7, [(900, 300, 1280, 720, ''person 0.90'')])]\<rparr>,
      [], Continue)"
    by (simp add: processor_body_def get_nowait_def new_processor_def FRAME_SKIP_def
        edge_model_def try_bind_def extract_dets_def d result_publish_def full_def put_nowait_def
        qsize_def new_queue_def BUFFER_SIZE_def)
  show ?thesis
    by (simp add: r b CAM_RES_def in_frame_def)
qed

section \<open>The smoother: properties\<close>





lemma similar_same_first_token:
  "similar d h = Inr True \<Longrightarrow> first_token (det_label d) = first_token (det_label h)"
  by (cases d; cases h)
     (auto simp: similar_def first_token_def try_bind_def det_label_def split: list.splits)

lemmas blend_eval = blend_def average_def py_trunc_def det_x1_def det_y1_def det_x2_def det_y2_def

text \<open>
  C3. A baseball glove is detected, then a baseball bat 21 pixels away. The two labels
  have the same first word, so the glove of the history passes the test of lines 142 and
  143 for the bat, enters the average, and the bat is returned at (108, 108, 208, 208)
  instead of (100, 100, 200, 200).
\<close>

theorem first_word_of_label_decides_similarity:
  "(case smooth_detections [glove] (new_smoother SMOOTHING_FACTOR) of (r1, s1) \<Rightarrow>
      (case smooth_detections [bat] s1 of (r2, s2) \<Rightarrow>
         r1 = Inr [glove] \<and>
         find_similar bat (concat (detection_history s2)) [] = Inr [glove, bat] \<and>
         r2 = Inr [(108, 108, 208, 208, ''baseball bat 0.90'')]))"
proof -
  have t: "first_token ''baseball bat 0.90'' = Inr ''baseball''"
    "first_token ''baseball glove 0.90'' = Inr ''baseball''"
    by (simp_all add: first_token_def str_split_def isspace_def)
  have sim: "similar bat glove = Inr True" "similar bat bat = Inr True"
    by (simp_all add: similar_def bat_def glove_def try_bind_def t)
  have "smooth_one SMOOTHING_FACTOR [[glove], [bat]] bat =
          Inr (108, 108, 208, 208, ''baseball bat 0.90'')"
    by (simp add: smooth_one_def sim try_bind_def)
       (simp add: bat_def glove_def blend_eval SMOOTHING_FACTOR_def)
  then show ?thesis
    by (simp add: smooth_detections_def new_smoother_def deque_append_def Let_def sim)
qed
















section \<open>The overlay: properties\<close>

lemma overlay_loop_step:
  "overlay_loop ts (det # dets) d =
     overlay_loop ts dets
       (d @ (if below_floor (det_label det) then []
             else outline_of det # (if box_area_of det > 2000 then caption_of ts det else [])))"
  by (cases det)
     (auto simp: below_floor_def outline_of_def caption_of_def box_area_of_def det_label_def
        det_x1_def det_x2_def det_y1_def det_y2_def Let_def split: option.splits prod.splits)

lemma overlay_loop_acc: "overlay_loop ts dets d = d @ overlay_loop ts dets []"
proof (induction dets arbitrary: d)
  case Nil
  then show ?case by simp
next
  case (Cons det dets)
  show ?case
    unfolding overlay_loop_step
    by (subst Cons.IH) (subst (2) Cons.IH, simp)
qed

lemma overlay_loop_append:
  "overlay_loop ts (ds1 @ ds2) [] = overlay_loop ts ds1 [] @ overlay_loop ts ds2 []"
proof (induction ds1)
  case Nil
  then show ?case by simp
next
  case (Cons det ds1)
  show ?case
    unfolding append_Cons overlay_loop_step
    by (subst overlay_loop_acc) (subst (2) overlay_loop_acc, simp add: Cons.IH)
qed

lemma overlay_at:
  "drawn (make_overlay ts wh (before @ [det] @ after) fps) =
     drawn (make_overlay ts wh before None) @
     (if below_floor (det_label det) then []
      else outline_of det # (if box_area_of det > 2000 then caption_of ts det else [])) @
     drawn (make_overlay ts wh after fps)"
proof -
  have "overlay_loop ts [det] [] =
     (if below_floor (det_label det) then []
      else outline_of det # (if box_area_of det > 2000 then caption_of ts det else []))"
    by (simp add: overlay_loop_step)
  moreover have "overlay_loop ts (before @ [det] @ after) [] =
      overlay_loop ts before [] @ overlay_loop ts [det] [] @ overlay_loop ts after []"
    by (simp only: overlay_loop_append)
  ultimately show ?thesis
    by (simp add: make_overlay_def fps_readout_def)
qed

lemmas float_eval = py_float_def strip_def isspace_def lower_def is_digit_def digit_val_def
  str_split_def




text \<open>
  C10. A detection whose label has at most one token, or whose last token is not a float,
  is drawn: the outlined rectangle, followed by the caption exactly when the area of the
  box exceeds 2000.
\<close>

theorem unparsed_confidence_is_drawn:
  assumes "length (str_split label) \<le> 1 \<or> py_float (last (str_split label)) = None"
  shows "drawn (make_overlay text_size wh (before @ [(x1, y1, x2, y2, label)] @ after) fps) =
     drawn (make_overlay text_size wh before None) @
     Rectangle (x1, y1, x2, y2) None (Some (0, 255, 0, 255)) 2 #
     (if (x2 - x1) * (y2 - y1) > 2000 then caption_of text_size (x1, y1, x2, y2, label) else []) @
     drawn (make_overlay text_size wh after fps)"
proof -
  from assms have "\<not> below_floor label"
    by (auto simp: below_floor_def)
  with overlay_at [of text_size wh before "(x1, y1, x2, y2, label)" after fps] show ?thesis
    by (simp add: outline_of_def box_area_of_def det_label_def
        det_x1_def det_y1_def det_x2_def det_y2_def)
qed

theorem unparsed_confidence_is_drawn_witness:
  "length (str_split ''person'') \<le> 1 \<and>
   py_float (last (str_split ''person high'')) = None \<and>
   drawn (make_overlay char_cell CAM_RES [(10, 10, 110, 110, ''person'')] None) =
     [Rectangle (10, 10, 110, 110) None (Some (0, 255, 0, 255)) 2,
      Rectangle (10, 0, 50, 13) (Some (0, 255, 0, 180)) None 1,
      DrawText (12, 0) ''person'' (0, 0, 0, 255)] \<and>
   drawn (make_overlay char_cell CAM_RES [(10, 10, 50, 50, ''person high'')] None) =
     [Rectangle (10, 10, 50, 50) None (Some (0, 255, 0, 255)) 2]"
proof -
  have e: "drawn (make_overlay char_cell CAM_RES [] None) = []"
    by (simp add: make_overlay_def fps_readout_def)
  have one: "length (str_split ''person'') \<le> 1"
    by (simp add: str_split_def isspace_def)
  have bad: "py_float (last (str_split ''person high'')) = None"
    by (simp add: float_eval)
  have c: "caption_of char_cell (10, 10, 110, 110, ''person'') =
      [Rectangle (10, 0, 50, 13) (Some (0, 255, 0, 180)) None 1,
       DrawText (12, 0) ''person'' (0, 0, 0, 255)]"
    by (simp add: caption_of_def char_cell_def)
  from unparsed_confidence_is_drawn [of "''person''" char_cell CAM_RES "[]" 10 10 110 110 "[]" None] one
  have a: "drawn (make_overlay char_cell CAM_RES [(10, 10, 110, 110, ''person'')] None) =
     [Rectangle (10, 10, 110, 110) None (Some (0, 255, 0, 255)) 2,
      Rectangle (10, 0, 50, 13) (Some (0, 255, 0, 180)) None 1,
      DrawText (12, 0) ''person'' (0, 0, 0, 255)]"
    by (simp add: e c)
  from unparsed_confidence_is_drawn [of "''person high''" char_cell CAM_RES "[]" 10 10 50 50 "[]" None] bad
  have b: "drawn (make_overlay char_cell CAM_RES [(10, 10, 50, 50, ''person high'')] None) =
     [Rectangle (10, 10, 50, 50) None (Some (0, 255, 0, 255)) 2]"
    by (simp add: e)
  from one bad a b show ?thesis by blast
qed

end
